theory Spec2Isabelle
  imports Main "HOL-Library.Sublist" "HOL-Library.Multiset" "HOL-Library.Word"
begin

section \<open>JavaScript strings\<close>

text \<open>
  A JavaScript string is a sequence of code units. The model uses HOL strings, whose
  characters are the code units 0..255 (the Latin-1 range); every literal of \<open>app.js\<close>
  lies in that range. \<open>toLowerCase\<close> maps A..Z and the accented capitals
  U+00C0..U+00DE (without the multiplication sign U+00D7) to the letter 32 places
  further, which is setting bit 5 of the code unit; \<open>trim\<close> removes the white space
  and line terminators of that range from both ends.
\<close>

definition isUpperChar :: "char \<Rightarrow> bool" where
  "isUpperChar c =
     (let n = (of_char c :: nat)
      in (65 \<le> n \<and> n \<le> 90) \<or> (192 \<le> n \<and> n \<le> 222 \<and> n \<noteq> 215))"

definition toLowerChar :: "char \<Rightarrow> char" where
  "toLowerChar c =
     (if isUpperChar c
      then (case c of Char b0 b1 b2 b3 b4 b5 b6 b7 \<Rightarrow> Char b0 b1 b2 b3 b4 True b6 b7)
      else c)"

definition toLowerCase :: "string \<Rightarrow> string" where
  "toLowerCase s = map toLowerChar s"

definition isWhiteSpace :: "char \<Rightarrow> bool" where
  "isWhiteSpace c = ((of_char c :: nat) \<in> {9, 10, 11, 12, 13, 32, 160})"

definition trim :: "string \<Rightarrow> string" where
  "trim s = rev (dropWhile isWhiteSpace (rev (dropWhile isWhiteSpace s)))"

definition startsWith :: "string \<Rightarrow> string \<Rightarrow> bool" where
  "startsWith s p = prefix p s"

definition endsWith :: "string \<Rightarrow> string \<Rightarrow> bool" where
  "endsWith s p = suffix p s"

definition str_includes :: "string \<Rightarrow> string \<Rightarrow> bool" where
  "str_includes s t = sublist t s"

text \<open>\<open>x || ''\<close> for an attribute or header that is a string or undefined/null.\<close>

definition or_empty :: "string option \<Rightarrow> string" where
  "or_empty v = (case v of None \<Rightarrow> [] | Some s \<Rightarrow> s)"

section \<open>The environment: URL parser, HTTP client, HTML parser\<close>

text \<open>
  \<open>app.js\<close> calls three libraries: the WHATWG \<open>URL\<close> class, \<open>node-fetch\<close> and
  \<open>cheerio\<close>. They are parameters of the model, collected in the record \<open>world\<close>.
  \<^item> \<open>parse_url s\<close> is \<open>new URL(s)\<close> and \<open>resolve_url s base\<close> is \<open>new URL(s, base)\<close>;
    \<open>None\<close> stands for the \<open>TypeError\<close> the constructor throws. Of a URL object the
    code reads \<open>toString()\<close> (the field \<open>href\<close>) and \<open>hostname\<close>.
  \<^item> \<open>fetch log u\<close> is the outcome of \<open>fetch(u, {redirect: 'follow'})\<close> when the
    requests made before it are \<open>log\<close> (oldest first); every request appends its URL
    to the log, which is the only state of the pipeline.
  \<^item> \<open>decode\<close> is the decoding of a response body by \<open>res.text()\<close> and \<open>load\<close>
    is \<open>cheerio.load\<close>, giving the elements of the page in document order.
\<close>

record url =
  href :: string
  hostname :: string

datatype js_error = TypeError | FetchError

type_synonym byte = "8 word"

record response =
  res_ok :: bool
  res_content_type :: "string option"
  res_body :: "byte list option"

datatype fetch_outcome = NetworkFailure | Response response

record element =
  tag :: string
  attrs :: "(string \<times> string) list"

record world =
  parse_url :: "string \<Rightarrow> url option"
  resolve_url :: "string \<Rightarrow> url \<Rightarrow> url option"
  fetch :: "string list \<Rightarrow> string \<Rightarrow> fetch_outcome"
  decode :: "byte list \<Rightarrow> string"
  load :: "string \<Rightarrow> element list"

definition attr :: "element \<Rightarrow> string \<Rightarrow> string option" where
  "attr el name = map_of (attrs el) name"

text \<open>The selections \<open>$('img')\<close> and \<open>$('a[href]')\<close>.\<close>

definition select_img :: "element list \<Rightarrow> element list" where
  "select_img doc = filter (\<lambda>el. tag el = ''img'') doc"

definition select_a_href :: "element list \<Rightarrow> element list" where
  "select_a_href doc = filter (\<lambda>el. tag el = ''a'' \<and> attr el ''href'' \<noteq> None) doc"

section \<open>Social profiles\<close>

datatype platform =
  facebook | linkedin | twitter | youtube | discord | instagram | pinterest | snapchat | tiktok

type_synonym social_profiles = "platform \<Rightarrow> string option"

definition SOCIAL_DOMAINS :: "(platform \<times> string list) list" where
  "SOCIAL_DOMAINS =
     [(facebook, [''facebook.com'']),
      (linkedin, [''linkedin.com'']),
      (twitter, [''twitter.com'', ''x.com'']),
      (youtube, [''youtube.com'', ''youtu.be'']),
      (discord, [''discord.com'']),
      (instagram, [''instagram.com'']),
      (pinterest, [''pinterest.com'']),
      (snapchat, [''snapchat.com'']),
      (tiktok, [''tiktok.com''])]"

definition emptySocialProfiles :: social_profiles where
  "emptySocialProfiles = (\<lambda>key. None)"

text \<open>Truthiness of \<open>found[key]\<close>, which is null or a string.\<close>

definition truthy :: "string option \<Rightarrow> bool" where
  "truthy v = (case v of None \<Rightarrow> False | Some s \<Rightarrow> s \<noteq> [])"

text \<open>\<open>domains.some(domain => hostname === domain || hostname.endsWith(`.${domain}`))\<close>\<close>

definition domains_match :: "string \<Rightarrow> string list \<Rightarrow> bool" where
  "domains_match host domains =
     list_ex (\<lambda>domain. host = domain \<or> endsWith host (''.'' @ domain)) domains"

text \<open>The loop over \<open>Object.entries(SOCIAL_DOMAINS)\<close> for one anchor.\<close>

fun classify :: "string \<Rightarrow> string \<Rightarrow> (platform \<times> string list) list \<Rightarrow> social_profiles \<Rightarrow> social_profiles" where
  "classify host absolute [] found = found"
| "classify host absolute ((key, domains) # entries) found =
     (if truthy (found key) then classify host absolute entries found
      else if domains_match host domains
      then classify host absolute entries (found(key := Some absolute))
      else classify host absolute entries found)"

text \<open>
  Lines 256 to 271 of the callback of \<open>$('a[href]').each\<close>: the lowercased host and
  the absolute URL of an anchor, or \<open>None\<close> where the callback returns early (an
  empty href, a href that does not resolve, an absolute URL that does not parse).
\<close>

definition anchorTarget :: "world \<Rightarrow> url \<Rightarrow> element \<Rightarrow> (string \<times> string) option" where
  "anchorTarget w baseUrl el =
     (let h = or_empty (attr el ''href'') in
      if h = [] then None
      else case resolve_url w h baseUrl of
             None \<Rightarrow> None
           | Some u \<Rightarrow>
               (let absolute = href u in
                case parse_url w absolute of
                  None \<Rightarrow> None
                | Some u' \<Rightarrow> Some (toLowerCase (hostname u'), absolute)))"

definition visitAnchor :: "world \<Rightarrow> url \<Rightarrow> social_profiles \<Rightarrow> element \<Rightarrow> social_profiles" where
  "visitAnchor w baseUrl found el =
     (case anchorTarget w baseUrl el of
        None \<Rightarrow> found
      | Some (host, absolute) \<Rightarrow> classify host absolute SOCIAL_DOMAINS found)"

definition extractSocialProfiles :: "world \<Rightarrow> element list \<Rightarrow> url \<Rightarrow> social_profiles" where
  "extractSocialProfiles w doc baseUrl =
     foldl (visitAnchor w baseUrl) emptySocialProfiles (select_a_href doc)"

section \<open>Logo candidates\<close>

record candidate =
  cand_url :: string
  cand_score :: int

definition scoreImageCandidate :: "string \<Rightarrow> string \<Rightarrow> string \<Rightarrow> string \<Rightarrow> int" where
  "scoreImageCandidate src alt ident cls =
     (let score = 0;
          haystack = src @ '' '' @ alt @ '' '' @ ident @ '' '' @ cls;
          score = (if str_includes haystack ''logo'' then score + 10 else score);
          score = (if str_includes haystack ''brand'' then score + 4 else score);
          score = (if str_includes haystack ''header'' \<or> str_includes haystack ''navbar''
                   then score + 2 else score);
          score = (if str_includes haystack ''site'' \<or> str_includes haystack ''main''
                   then score + 1 else score);
          score = (if str_includes src ''/logo.'' then score + 5 else score)
      in score)"

text \<open>
  The test \<open>/\.(jpe?g|png)(\?|#|$)/\<close>: one of the three extensions occurs in the string,
  followed by \<open>?\<close>, by \<open>#\<close> or by the end of the string.
\<close>

definition has_image_extension :: "string \<Rightarrow> bool" where
  "has_image_extension s =
     list_ex (\<lambda>ext. str_includes s (ext @ ''?'') \<or> str_includes s (ext @ ''#'') \<or> endsWith s ext)
       [''.jpg'', ''.jpeg'', ''.png'']"

text \<open>The score the scan gives an image element (lines 109 and 113 to 121).\<close>

definition imageScore :: "element \<Rightarrow> int" where
  "imageScore el =
     (let src = trim (or_empty (attr el ''src''));
          lowerSrc = toLowerCase src;
          alt = toLowerCase (or_empty (attr el ''alt''));
          ident = toLowerCase (or_empty (attr el ''id''));
          cls = toLowerCase (or_empty (attr el ''class''))
      in scoreImageCandidate lowerSrc alt ident cls)"

text \<open>
  The callback of \<open>$('img').each\<close>: \<open>Inr None\<close> is a \<open>return\<close> without a candidate,
  \<open>Inl\<close> the exception of \<open>new URL(src, parsedUrl)\<close>, which the callback does not catch.
\<close>

definition scanImage :: "world \<Rightarrow> url \<Rightarrow> element \<Rightarrow> js_error + candidate option" where
  "scanImage w parsedUrl el =
     (let src = trim (or_empty (attr el ''src'')) in
      if src = [] \<or> startsWith src ''data:'' then Inr None
      else if \<not> has_image_extension (toLowerCase src) then Inr None
      else (let score = imageScore el in
            case resolve_url w src parsedUrl of
              None \<Rightarrow> Inl TypeError
            | Some u \<Rightarrow> Inr (Some \<lparr>cand_url = href u, cand_score = score\<rparr>)))"

fun collectCandidates :: "world \<Rightarrow> url \<Rightarrow> element list \<Rightarrow> candidate list \<Rightarrow> js_error + candidate list" where
  "collectCandidates w parsedUrl [] candidates = Inr candidates"
| "collectCandidates w parsedUrl (el # els) candidates =
     (case scanImage w parsedUrl el of
        Inl e \<Rightarrow> Inl e
      | Inr None \<Rightarrow> collectCandidates w parsedUrl els candidates
      | Inr (Some c) \<Rightarrow> collectCandidates w parsedUrl els (candidates @ [c]))"

text \<open>
  \<open>Array.prototype.sort(compareFn)\<close> is stable since ECMAScript 2019, and so on the
  Node 22 of the Dockerfile. It is modelled as a stable insertion sort driven by the
  comparator, where \<open>compareFn(a, b) \<le> 0\<close> keeps \<open>a\<close> before \<open>b\<close>; with the
  comparator of line 135 every stable sort gives the same list.
\<close>

fun insert_by :: "('a \<Rightarrow> 'a \<Rightarrow> int) \<Rightarrow> 'a \<Rightarrow> 'a list \<Rightarrow> 'a list" where
  "insert_by cmp x [] = [x]"
| "insert_by cmp x (y # ys) = (if cmp x y \<le> 0 then x # y # ys else y # insert_by cmp x ys)"

definition array_sort :: "('a \<Rightarrow> 'a \<Rightarrow> int) \<Rightarrow> 'a list \<Rightarrow> 'a list" where
  "array_sort cmp xs = foldr (insert_by cmp) xs []"

definition sortCandidates :: "candidate list \<Rightarrow> candidate list" where
  "sortCandidates candidates = array_sort (\<lambda>a b. cand_score b - cand_score a) candidates"

section \<open>Downloading and validating an image\<close>

definition MAX_LOGO_BYTES :: nat where
  "MAX_LOGO_BYTES = 2 * 1024 * 1024"

record logo =
  logo_url :: string
  logo_size :: nat
  logo_contentType :: string
  logo_data :: "byte list"

text \<open>
  The object \<open>downloadAndValidateImage\<close> returns. A field the object does not have is
  \<open>None\<close>; \<open>tooLarge\<close> is only read for its truthiness, so an absent one is \<open>False\<close>.
\<close>

record logo_check =
  lc_ok :: bool
  lc_tooLarge :: bool
  lc_reason :: "string option"
  lc_size :: "nat option"
  lc_logo :: "logo option"

definition rejected :: "string \<Rightarrow> logo_check" where
  "rejected r = \<lparr>lc_ok = False, lc_tooLarge = False, lc_reason = Some r, lc_size = None, lc_logo = None\<rparr>"

definition downloadAndValidateImage :: "world \<Rightarrow> string list \<Rightarrow> string \<Rightarrow> logo_check \<times> string list" where
  "downloadAndValidateImage w log imageUrl =
     (case fetch w log imageUrl of
        NetworkFailure \<Rightarrow> rejected ''download_error''
      | Response res \<Rightarrow>
          if \<not> res_ok res then rejected ''fetch_failed''
          else
            (let contentType = toLowerCase (or_empty (res_content_type res));
                 isJpeg = (startsWith contentType ''image/jpeg'' \<or> startsWith contentType ''image/jpg'');
                 isPng = startsWith contentType ''image/png''
             in if \<not> isJpeg \<and> \<not> isPng then rejected ''unsupported_type''
                else case res_body res of
                       None \<Rightarrow> rejected ''download_error''
                     | Some buffer \<Rightarrow>
                         (let size = length buffer in
                          if size \<ge> MAX_LOGO_BYTES
                          then \<lparr>lc_ok = False, lc_tooLarge = True, lc_reason = Some ''too_large'',
                                lc_size = Some size, lc_logo = None\<rparr>
                          else \<lparr>lc_ok = True, lc_tooLarge = False, lc_reason = None, lc_size = None,
                                lc_logo = Some \<lparr>logo_url = imageUrl, logo_size = size,
                                                logo_contentType = contentType, logo_data = buffer\<rparr>\<rparr>)),
      log @ [imageUrl])"

section \<open>The pipeline\<close>

record result =
  success :: bool
  message :: string
  logo :: "logo option"
  socialProfiles :: "social_profiles option"

definition failure :: "string \<Rightarrow> social_profiles option \<Rightarrow> result" where
  "failure msg sp = \<lparr>success = False, message = msg, logo = None, socialProfiles = sp\<rparr>"

text \<open>The loop \<open>for (const candidate of candidates)\<close>; its value is \<open>chosenResult\<close>.\<close>

fun validateLoop :: "world \<Rightarrow> social_profiles \<Rightarrow> string list \<Rightarrow> candidate list \<Rightarrow> result option \<times> string list" where
  "validateLoop w sp log [] = (None, log)"
| "validateLoop w sp log (c # cs) =
     (let (logoCheck, log') = downloadAndValidateImage w log (cand_url c) in
      if lc_ok logoCheck \<and> \<not> lc_tooLarge logoCheck \<and> lc_logo logoCheck \<noteq> None
      then (Some \<lparr>success = True, message = ''OK'', logo = lc_logo logoCheck,
                  socialProfiles = Some sp\<rparr>, log')
      else if lc_tooLarge logoCheck
      then (Some (failure ''logo greater than image limit'' (Some sp)), log')
      else validateLoop w sp log' cs)"

text \<open>Lines 127 to 174: from the collected candidates to \<open>finalResult\<close>.\<close>

definition selectLogo :: "world \<Rightarrow> social_profiles \<Rightarrow> string list \<Rightarrow> candidate list \<Rightarrow> result \<times> string list" where
  "selectLogo w sp log candidates =
     (if length candidates = 0 then (failure ''could not identify logo'' (Some sp), log)
      else case validateLoop w sp log (sortCandidates candidates) of
             (Some chosenResult, log') \<Rightarrow> (chosenResult, log')
           | (None, log') \<Rightarrow> (failure ''could not identify logo'' (Some sp), log'))"

text \<open>
  The body of the \<open>try\<close> block (lines 91 to 175). \<open>Inl\<close> is an exception that leaves
  the block: a rejected \<open>fetch\<close>, a body that cannot be read, or the exception of the
  image scan.
\<close>

definition tryBlock :: "world \<Rightarrow> url \<Rightarrow> string list \<Rightarrow> (js_error + result) \<times> string list" where
  "tryBlock w parsedUrl log =
     (let canonicalUrl = href parsedUrl; log' = log @ [canonicalUrl] in
      case fetch w log canonicalUrl of
        NetworkFailure \<Rightarrow> (Inl FetchError, log')
      | Response pageRes \<Rightarrow>
          if \<not> res_ok pageRes
          then (Inr (failure ''could not identify logo'' (Some emptySocialProfiles)), log')
          else (case res_body pageRes of
                  None \<Rightarrow> (Inl FetchError, log')
                | Some bytes \<Rightarrow>
                    (let doc = load w (decode w bytes);
                         sp = extractSocialProfiles w doc parsedUrl
                     in case collectCandidates w parsedUrl (select_img doc) [] of
                          Inl e \<Rightarrow> (Inl e, log')
                        | Inr candidates \<Rightarrow>
                            (let (finalResult, log'') = selectLogo w sp log' candidates
                             in (Inr finalResult, log'')))))"

text \<open>
  \<open>fetchCompanyLogo\<close>. The result is a sum so that an exception escaping to the caller
  would be a value \<open>Inl\<close>; the \<open>catch\<close> of line 176 turns the exception of the
  \<open>try\<close> block into a result.
\<close>

definition fetchCompanyLogo :: "world \<Rightarrow> string list \<Rightarrow> string \<Rightarrow> (js_error + result) \<times> string list" where
  "fetchCompanyLogo w log targetUrl =
     (if targetUrl = [] \<or> trim targetUrl = []
      then (Inr \<lparr>success = False, message = ''False'', logo = None, socialProfiles = None\<rparr>, log)
      else case parse_url w targetUrl of
             None \<Rightarrow> (Inr \<lparr>success = False, message = ''Malformed URL'', logo = None,
                            socialProfiles = None\<rparr>, log)
           | Some parsedUrl \<Rightarrow>
               (case tryBlock w parsedUrl log of
                  (Inl err, log') \<Rightarrow>
                    (Inr (failure ''could not identify logo'' (Some emptySocialProfiles)), log')
                | (Inr finalResult, log') \<Rightarrow> (Inr finalResult, log')))"

section \<open>Notions used in the statements\<close>

text \<open>The domains of a platform in \<open>SOCIAL_DOMAINS\<close>.\<close>

definition domains_of :: "platform \<Rightarrow> string list" where
  "domains_of key = (case map_of SOCIAL_DOMAINS key of None \<Rightarrow> [] | Some domains \<Rightarrow> domains)"

text \<open>
  An anchor matches a platform: its href is not empty and resolves, and the lowercased
  host of the absolute URL is one of the platform's domains or a subdomain of one.
\<close>

definition anchorMatches :: "world \<Rightarrow> url \<Rightarrow> platform \<Rightarrow> element \<Rightarrow> bool" where
  "anchorMatches w baseUrl key el =
     (case anchorTarget w baseUrl el of
        None \<Rightarrow> False
      | Some (host, absolute) \<Rightarrow> domains_match host (domains_of key))"

text \<open>
  A well-formed extraction result: a success has the message \<open>OK\<close>, a logo and social
  profiles; a failure has no logo and one of the four fixed failure messages.
\<close>

definition well_formed :: "result \<Rightarrow> bool" where
  "well_formed r =
     (if success r then message r = ''OK'' \<and> logo r \<noteq> None \<and> socialProfiles r \<noteq> None
      else logo r = None \<and>
           message r \<in> {''False'', ''Malformed URL'', ''could not identify logo'',
                         ''logo greater than image limit''})"

text \<open>
  The content-type test of the downloader: the lowercased header, or the empty string
  for a missing one, starts with \<open>image/jpeg\<close>, \<open>image/jpg\<close> or \<open>image/png\<close>.
\<close>

definition acceptedContentType :: "string option \<Rightarrow> bool" where
  "acceptedContentType header =
     (let ct = toLowerCase (or_empty header) in
      startsWith ct ''image/jpeg'' \<or> startsWith ct ''image/jpg'' \<or> startsWith ct ''image/png'')"

text \<open>
  The kinds of reference that \<open>new URL(href, base)\<close> tells apart, after the URL
  Standard's basic URL parser. The parser first strips C0 controls and spaces from both
  ends of the input and removes every tab and newline (\<open>url_input\<close>). The input has a
  scheme when it starts with an ASCII letter followed by letters, digits, \<open>+\<close>,
  \<open>-\<close> or \<open>.\<close> and then a colon. An input without a scheme is resolved against the
  base: when it starts with two slashes (a backslash counts as a slash for http and
  https) it is scheme-relative and brings its own host; any other input without a
  scheme is a path, a query or a fragment on the base's host, here a local reference.
\<close>

definition isC0OrSpace :: "char \<Rightarrow> bool" where
  "isC0OrSpace c = ((of_char c :: nat) \<le> 32)"

definition isTabOrNewline :: "char \<Rightarrow> bool" where
  "isTabOrNewline c = ((of_char c :: nat) \<in> {9, 10, 13})"

definition url_input :: "string \<Rightarrow> string" where
  "url_input s =
     filter (\<lambda>c. \<not> isTabOrNewline c)
       (rev (dropWhile isC0OrSpace (rev (dropWhile isC0OrSpace s))))"

definition isAsciiAlpha :: "char \<Rightarrow> bool" where
  "isAsciiAlpha c =
     (let n = (of_char c :: nat) in (65 \<le> n \<and> n \<le> 90) \<or> (97 \<le> n \<and> n \<le> 122))"

definition isSchemeChar :: "char \<Rightarrow> bool" where
  "isSchemeChar c =
     (let n = (of_char c :: nat)
      in isAsciiAlpha c \<or> (48 \<le> n \<and> n \<le> 57) \<or> c = CHR ''+'' \<or> c = CHR ''-'' \<or> c = CHR ''.'')"

definition has_scheme :: "string \<Rightarrow> bool" where
  "has_scheme s =
     (case s of
        [] \<Rightarrow> False
      | c # cs \<Rightarrow> isAsciiAlpha c \<and>
          (case dropWhile isSchemeChar cs of [] \<Rightarrow> False | d # ds \<Rightarrow> d = CHR '':''))"

definition isSlash :: "char \<Rightarrow> bool" where
  "isSlash c = (c = CHR ''/'' \<or> c = CHR 0x5C)"

definition starts_authority :: "string \<Rightarrow> bool" where
  "starts_authority s = (case s of a # b # rest \<Rightarrow> isSlash a \<and> isSlash b | _ \<Rightarrow> False)"

definition scheme_relative_reference :: "string \<Rightarrow> bool" where
  "scheme_relative_reference h =
     (let s = url_input h in \<not> has_scheme s \<and> starts_authority s)"

definition local_reference :: "string \<Rightarrow> bool" where
  "local_reference h =
     (let s = url_input h in \<not> has_scheme s \<and> \<not> starts_authority s)"

section \<open>A concrete environment\<close>

text \<open>
  An environment for evaluating the pipeline on examples. Its URL parser accepts
  \<open>https://host/path\<close> with a non-empty host that has no bracket in it; a reference
  that starts with \<open>/\<close> resolves to the base's host. The network is a table from URLs
  to outcomes (a URL that is not in the table fails to connect), and the HTML parser
  returns the given document.
\<close>

definition demo_parse :: "string \<Rightarrow> url option" where
  "demo_parse s =
     (let host = takeWhile (\<lambda>c. c \<noteq> CHR ''/'') (drop 8 s) in
      if startsWith s ''https://'' \<and> host \<noteq> [] \<and> CHR ''['' \<notin> set host
      then Some \<lparr>href = s, hostname = host\<rparr> else None)"

definition demo_resolve :: "string \<Rightarrow> url \<Rightarrow> url option" where
  "demo_resolve s base =
     (if startsWith s ''/''
      then Some \<lparr>href = ''https://'' @ hostname base @ s, hostname = hostname base\<rparr>
      else demo_parse s)"

definition demo_world :: "element list \<Rightarrow> (string \<times> fetch_outcome) list \<Rightarrow> world" where
  "demo_world doc net =
     \<lparr>parse_url = demo_parse,
      resolve_url = demo_resolve,
      fetch = (\<lambda>log u. case map_of net u of None \<Rightarrow> NetworkFailure | Some outcome \<Rightarrow> outcome),
      decode = (\<lambda>bytes. []),
      load = (\<lambda>html. doc)\<rparr>"

definition image_response :: "string \<Rightarrow> byte list \<Rightarrow> fetch_outcome" where
  "image_response contentType bytes =
     Response \<lparr>res_ok = True, res_content_type = Some contentType, res_body = Some bytes\<rparr>"

definition error_response :: fetch_outcome where
  "error_response = Response \<lparr>res_ok = False, res_content_type = Some ''image/png'', res_body = Some []\<rparr>"

text \<open>A response whose body cannot be read to its end.\<close>

definition cut_response :: fetch_outcome where
  "cut_response = Response \<lparr>res_ok = True, res_content_type = Some ''image/png'', res_body = None\<rparr>"

definition page_response :: fetch_outcome where
  "page_response = Response \<lparr>res_ok = True, res_content_type = Some ''text/html'', res_body = Some []\<rparr>"

definition img :: "string \<Rightarrow> string \<Rightarrow> element" where
  "img src cls = \<lparr>tag = ''img'', attrs = [(''src'', src), (''class'', cls)]\<rparr>"

definition anchor :: "string \<Rightarrow> element" where
  "anchor h = \<lparr>tag = ''a'', attrs = [(''href'', h)]\<rparr>"

text \<open>Image URLs of the examples and what the network answers for them.\<close>

definition demo_images :: "(string \<times> fetch_outcome) list" where
  "demo_images =
     [(''https://acme.test/logo.png'', image_response ''Image/PNG'' [1, 2, 3]),
      (''https://acme.test/big.png'', image_response ''image/png'' (replicate 2097152 0)),
      (''https://acme.test/page.png'', image_response ''text/html'' [1, 2, 3]),
      (''https://acme.test/gone.png'', error_response),
      (''https://acme.test/photo.jpg'', image_response ''image/jpg'' [1, 2, 3]),
      (''https://acme.test/cut.png'', cut_response)]"

text \<open>Three candidates in discovery order.\<close>

definition demo_candidates :: "candidate list" where
  "demo_candidates =
     [\<lparr>cand_url = ''https://acme.test/logo.png'', cand_score = 1\<rparr>,
      \<lparr>cand_url = ''https://acme.test/gone.png'', cand_score = 15\<rparr>,
      \<lparr>cand_url = ''https://acme.test/big.png'', cand_score = 10\<rparr>]"


definition demo_base :: url where
  "demo_base = \<lparr>href = ''https://acme.test/'', hostname = ''acme.test''\<rparr>"

text \<open>A page whose own address is on a platform's domain.\<close>

definition facebook_base :: url where
  "facebook_base = \<lparr>href = ''https://facebook.com/somepage'', hostname = ''facebook.com''\<rparr>"

text \<open>
  An environment whose resolver also takes references without a scheme: a
  scheme-relative reference gets the scheme \<open>https\<close>, a local reference is put on the
  base's host.
\<close>

definition reference_resolve :: "string \<Rightarrow> url \<Rightarrow> url option" where
  "reference_resolve h base =
     (let s = url_input h in
      if has_scheme s then demo_parse s
      else if starts_authority s then demo_parse (''https://'' @ drop 2 s)
      else if startsWith s ''/''
      then Some \<lparr>href = ''https://'' @ hostname base @ s, hostname = hostname base\<rparr>
      else Some \<lparr>href = ''https://'' @ hostname base @ ''/'' @ s, hostname = hostname base\<rparr>)"

definition reference_world :: "element list \<Rightarrow> world" where
  "reference_world doc = (demo_world doc [])\<lparr>resolve_url := reference_resolve\<rparr>"

text \<open>Pages at \<open>https://facebook.com/somepage\<close>.\<close>

definition internal_links :: "element list" where
  "internal_links = [anchor ''https://acme.test/'', anchor ''/privacy'', anchor ''help'']"

definition scheme_relative_links :: "element list" where
  "scheme_relative_links = [anchor ''//x.com/a'']"

definition mixed_links :: "element list" where
  "mixed_links = [anchor ''https://www.facebook.com/real'', anchor ''/privacy'']"

text \<open>
  The network of the examples: the page \<open>https://acme.test/\<close> and the images. The
  three pages: one with an image whose src does not resolve, the same page without
  that image, and one whose logo is served as \<open>image/jpg\<close>.
\<close>

definition demo_net :: "(string \<times> fetch_outcome) list" where
  "demo_net = (''https://acme.test/'', page_response) # demo_images"

definition broken_page :: "element list" where
  "broken_page =
     [anchor ''https://facebook.com/acme'',
      img ''https://[/logo.png'' ''brand'',
      img ''/logo.png'' []]"

definition sound_page :: "element list" where
  "sound_page =
     [anchor ''https://facebook.com/acme'',
      img ''/logo.png'' []]"

definition jpg_page :: "element list" where
  "jpg_page = [img ''/photo.jpg'' ''logo'']"

section \<open>Properties of the strings\<close>







lemmas string_eval =
  str_includes_def startsWith_def endsWith_def sublist_code suffix_to_prefix
  toLowerCase_def toLowerChar_def isUpperChar_def trim_def isWhiteSpace_def or_empty_def

section \<open>Scoring of image candidates\<close>








section \<open>Ordering of the candidates\<close>

lemma mset_insert_by: "mset (insert_by cmp x xs) = add_mset x (mset xs)"
  by (induction xs) auto

lemma set_insert_by: "set (insert_by cmp x xs) = insert x (set xs)"
  by (induction xs) auto

lemma mset_array_sort: "mset (array_sort cmp xs) = mset xs"
  by (induction xs) (auto simp: array_sort_def mset_insert_by)

lemma sorted_insert_by_score:
  "sorted_wrt (\<lambda>a b. cand_score b \<le> cand_score a) ys \<Longrightarrow>
   sorted_wrt (\<lambda>a b. cand_score b \<le> cand_score a)
     (insert_by (\<lambda>a b. cand_score b - cand_score a) x ys)"
  by (induction ys) (auto simp: set_insert_by)

lemma sorted_sortCandidates:
  "sorted_wrt (\<lambda>a b. cand_score b \<le> cand_score a) (sortCandidates cs)"
  by (induction cs) (auto simp: sortCandidates_def array_sort_def sorted_insert_by_score)

lemma filter_insert_by_score:
  "filter (\<lambda>c. cand_score c = k) (insert_by (\<lambda>a b. cand_score b - cand_score a) x ys) =
     (if cand_score x = k then x # filter (\<lambda>c. cand_score c = k) ys
      else filter (\<lambda>c. cand_score c = k) ys)"
  by (induction ys) auto

lemma stable_sortCandidates:
  "filter (\<lambda>c. cand_score c = k) (sortCandidates cs) = filter (\<lambda>c. cand_score c = k) cs"
  by (induction cs) (auto simp: sortCandidates_def array_sort_def filter_insert_by_score)

text \<open>
  Claim C8. The sequence the orchestrator validates, \<open>sortCandidates candidates\<close>, is
  a permutation of the candidates in discovery order; a candidate never stands before
  one of higher score; and for every score \<open>k\<close> the candidates of score \<open>k\<close> stand in
  their discovery order (the sort is stable).
\<close>

theorem C8_sorted_stable_permutation:
  "mset (sortCandidates candidates) = mset candidates
   \<and> sorted_wrt (\<lambda>a b. cand_score a \<ge> cand_score b) (sortCandidates candidates)
   \<and> (\<forall>k. filter (\<lambda>c. cand_score c = k) (sortCandidates candidates)
            = filter (\<lambda>c. cand_score c = k) candidates)"
  using mset_array_sort[of "\<lambda>a b. cand_score b - cand_score a" candidates]
    sorted_sortCandidates[of candidates] stable_sortCandidates[of _ candidates]
  by (simp add: sortCandidates_def)

theorem C8_sorted_stable_permutation_witness:
  "sortCandidates
     [\<lparr>cand_url = ''a'', cand_score = 1\<rparr>, \<lparr>cand_url = ''b'', cand_score = 15\<rparr>,
      \<lparr>cand_url = ''c'', cand_score = 1\<rparr>, \<lparr>cand_url = ''d'', cand_score = 15\<rparr>]
   = [\<lparr>cand_url = ''b'', cand_score = 15\<rparr>, \<lparr>cand_url = ''d'', cand_score = 15\<rparr>,
      \<lparr>cand_url = ''a'', cand_score = 1\<rparr>, \<lparr>cand_url = ''c'', cand_score = 1\<rparr>]
   \<and> filter (\<lambda>c. cand_score c = 15) (sortCandidates
     [\<lparr>cand_url = ''a'', cand_score = 1\<rparr>, \<lparr>cand_url = ''b'', cand_score = 15\<rparr>,
      \<lparr>cand_url = ''c'', cand_score = 1\<rparr>, \<lparr>cand_url = ''d'', cand_score = 15\<rparr>])
   = [\<lparr>cand_url = ''b'', cand_score = 15\<rparr>, \<lparr>cand_url = ''d'', cand_score = 15\<rparr>]"
  using C8_sorted_stable_permutation
    [of "[\<lparr>cand_url = ''a'', cand_score = 1\<rparr>, \<lparr>cand_url = ''b'', cand_score = 15\<rparr>,
          \<lparr>cand_url = ''c'', cand_score = 1\<rparr>, \<lparr>cand_url = ''d'', cand_score = 15\<rparr>]"]
  by (simp add: sortCandidates_def array_sort_def)

section \<open>The downloader\<close>

lemma download_log: "snd (downloadAndValidateImage w log imageUrl) = log @ [imageUrl]"
  by (simp add: downloadAndValidateImage_def)

lemma download_network_failure:
  "fetch w log imageUrl = NetworkFailure \<Longrightarrow>
   fst (downloadAndValidateImage w log imageUrl) = rejected ''download_error''"
  by (simp add: downloadAndValidateImage_def)

lemma download_not_ok:
  "fetch w log imageUrl = Response res \<Longrightarrow> \<not> res_ok res \<Longrightarrow>
   fst (downloadAndValidateImage w log imageUrl) = rejected ''fetch_failed''"
  by (simp add: downloadAndValidateImage_def)

lemma download_unsupported:
  "fetch w log imageUrl = Response res \<Longrightarrow> res_ok res \<Longrightarrow>
   \<not> acceptedContentType (res_content_type res) \<Longrightarrow>
   fst (downloadAndValidateImage w log imageUrl) = rejected ''unsupported_type''"
  by (simp add: downloadAndValidateImage_def acceptedContentType_def Let_def)

lemma download_unreadable:
  "fetch w log imageUrl = Response res \<Longrightarrow> res_ok res \<Longrightarrow>
   acceptedContentType (res_content_type res) \<Longrightarrow> res_body res = None \<Longrightarrow>
   fst (downloadAndValidateImage w log imageUrl) = rejected ''download_error''"
  by (auto simp add: downloadAndValidateImage_def acceptedContentType_def Let_def)

lemma download_too_large:
  "fetch w log imageUrl = Response res \<Longrightarrow> res_ok res \<Longrightarrow>
   acceptedContentType (res_content_type res) \<Longrightarrow>
   res_body res = Some buffer \<Longrightarrow> length buffer \<ge> 2 * 1024 * 1024 \<Longrightarrow>
   fst (downloadAndValidateImage w log imageUrl) =
     \<lparr>lc_ok = False, lc_tooLarge = True, lc_reason = Some ''too_large'',
      lc_size = Some (length buffer), lc_logo = None\<rparr>"
  by (auto simp add: downloadAndValidateImage_def acceptedContentType_def Let_def MAX_LOGO_BYTES_def)

lemma download_accepted:
  "fetch w log imageUrl = Response res \<Longrightarrow> res_ok res \<Longrightarrow>
   acceptedContentType (res_content_type res) \<Longrightarrow>
   res_body res = Some buffer \<Longrightarrow> length buffer < 2 * 1024 * 1024 \<Longrightarrow>
   fst (downloadAndValidateImage w log imageUrl) =
     \<lparr>lc_ok = True, lc_tooLarge = False, lc_reason = None, lc_size = None,
      lc_logo = Some \<lparr>logo_url = imageUrl, logo_size = length buffer,
                      logo_contentType = toLowerCase (or_empty (res_content_type res)),
                      logo_data = buffer\<rparr>\<rparr>"
  by (auto simp add: downloadAndValidateImage_def acceptedContentType_def Let_def MAX_LOGO_BYTES_def)

lemma download_ok_iff:
  "lc_ok (fst (downloadAndValidateImage w log imageUrl)) \<longleftrightarrow>
     (\<exists>res buffer. fetch w log imageUrl = Response res \<and> res_ok res \<and>
        acceptedContentType (res_content_type res) \<and>
        res_body res = Some buffer \<and> length buffer < 2 * 1024 * 1024)"
  by (auto simp add: downloadAndValidateImage_def acceptedContentType_def Let_def
      MAX_LOGO_BYTES_def rejected_def split: fetch_outcome.splits option.splits)

lemma download_flags:
  "lc_tooLarge (fst (downloadAndValidateImage w log imageUrl)) \<longleftrightarrow>
     lc_reason (fst (downloadAndValidateImage w log imageUrl)) = Some ''too_large''"
  "lc_ok (fst (downloadAndValidateImage w log imageUrl)) \<longleftrightarrow>
     lc_reason (fst (downloadAndValidateImage w log imageUrl)) = None"
  "lc_ok (fst (downloadAndValidateImage w log imageUrl)) \<longleftrightarrow>
     lc_logo (fst (downloadAndValidateImage w log imageUrl)) \<noteq> None"
  by (auto simp add: downloadAndValidateImage_def Let_def rejected_def
      split: fetch_outcome.splits option.splits)

text \<open>
  Claim C5. The outcome of \<open>downloadAndValidateImage\<close>, by what \<open>fetch\<close> gives:
  \<^item> a transport failure is rejected with \<open>download_error\<close>, and so is a body that
    cannot be read;
  \<^item> a response with a non-success status is rejected with \<open>fetch_failed\<close>;
  \<^item> a successful response whose lowercased content-type starts with none of
    \<open>image/jpeg\<close>, \<open>image/jpg\<close>, \<open>image/png\<close> is rejected with \<open>unsupported_type\<close>,
    whatever its body;
  \<^item> a successful response of an accepted type with a body of at least 2 * 1024 * 1024
    bytes is rejected with \<open>too_large\<close> and carries the size;
  \<^item> a successful response of an accepted type with a smaller body is accepted, with
    the URL, the size, the lowercased content-type and the bytes;
  \<^item> the image is accepted if and only if the response is successful, of an accepted
    type, and its body has fewer than 2 * 1024 * 1024 bytes.
\<close>

theorem C5_download_outcomes:
  "(fetch w log imageUrl = NetworkFailure \<longrightarrow>
      fst (downloadAndValidateImage w log imageUrl) = rejected ''download_error'')
   \<and> (fetch w log imageUrl = Response res \<and> \<not> res_ok res \<longrightarrow>
      fst (downloadAndValidateImage w log imageUrl) = rejected ''fetch_failed'')
   \<and> (fetch w log imageUrl = Response res \<and> res_ok res \<and>
       \<not> acceptedContentType (res_content_type res) \<longrightarrow>
      fst (downloadAndValidateImage w log imageUrl) = rejected ''unsupported_type'')
   \<and> (fetch w log imageUrl = Response res \<and> res_ok res \<and>
       acceptedContentType (res_content_type res) \<and> res_body res = None \<longrightarrow>
      fst (downloadAndValidateImage w log imageUrl) = rejected ''download_error'')
   \<and> (fetch w log imageUrl = Response res \<and> res_ok res \<and>
       acceptedContentType (res_content_type res) \<and> res_body res = Some buffer \<and>
       length buffer \<ge> 2 * 1024 * 1024 \<longrightarrow>
      fst (downloadAndValidateImage w log imageUrl) =
        \<lparr>lc_ok = False, lc_tooLarge = True, lc_reason = Some ''too_large'',
         lc_size = Some (length buffer), lc_logo = None\<rparr>)
   \<and> (fetch w log imageUrl = Response res \<and> res_ok res \<and>
       acceptedContentType (res_content_type res) \<and> res_body res = Some buffer \<and>
       length buffer < 2 * 1024 * 1024 \<longrightarrow>
      fst (downloadAndValidateImage w log imageUrl) =
        \<lparr>lc_ok = True, lc_tooLarge = False, lc_reason = None, lc_size = None,
         lc_logo = Some \<lparr>logo_url = imageUrl, logo_size = length buffer,
                         logo_contentType = toLowerCase (or_empty (res_content_type res)),
                         logo_data = buffer\<rparr>\<rparr>)
   \<and> (lc_ok (fst (downloadAndValidateImage w log imageUrl)) \<longleftrightarrow>
        (\<exists>res buffer. fetch w log imageUrl = Response res \<and> res_ok res \<and>
           acceptedContentType (res_content_type res) \<and>
           res_body res = Some buffer \<and> length buffer < 2 * 1024 * 1024))"
  using download_network_failure[of w log imageUrl] download_not_ok[of w log imageUrl res]
    download_unsupported[of w log imageUrl res] download_unreadable[of w log imageUrl res]
    download_too_large[of w log imageUrl res buffer] download_accepted[of w log imageUrl res buffer]
    download_ok_iff[of w log imageUrl]
  by blast

lemma demo_world_sel:
  "parse_url (demo_world doc net) = demo_parse"
  "resolve_url (demo_world doc net) = demo_resolve"
  "fetch (demo_world doc net) log u =
     (case map_of net u of None \<Rightarrow> NetworkFailure | Some outcome \<Rightarrow> outcome)"
  "decode (demo_world doc net) bytes = []"
  "load (demo_world doc net) html = doc"
  by (simp_all add: demo_world_def)

lemmas demo_eval =
  demo_world_sel demo_images_def image_response_def error_response_def cut_response_def

lemma accepted_contentType_prefix:
  "lc_logo (fst (downloadAndValidateImage w log imageUrl)) = Some l \<Longrightarrow>
   startsWith (logo_contentType l) ''image/jpeg'' \<or> startsWith (logo_contentType l) ''image/jpg''
   \<or> startsWith (logo_contentType l) ''image/png''"
  by (auto simp add: downloadAndValidateImage_def Let_def rejected_def
      split: fetch_outcome.splits option.splits if_splits)

theorem C5_download_outcomes_witness:
  "fst (downloadAndValidateImage (demo_world [] demo_images) [] ''https://acme.test/logo.png'') =
     \<lparr>lc_ok = True, lc_tooLarge = False, lc_reason = None, lc_size = None,
      lc_logo = Some \<lparr>logo_url = ''https://acme.test/logo.png'', logo_size = 3,
                      logo_contentType = ''image/png'', logo_data = [1, 2, 3]\<rparr>\<rparr>
   \<and> fst (downloadAndValidateImage (demo_world [] demo_images) [] ''https://acme.test/big.png'') =
     \<lparr>lc_ok = False, lc_tooLarge = True, lc_reason = Some ''too_large'',
      lc_size = Some 2097152, lc_logo = None\<rparr>
   \<and> fst (downloadAndValidateImage (demo_world [] demo_images) [] ''https://acme.test/page.png'') =
     rejected ''unsupported_type''
   \<and> fst (downloadAndValidateImage (demo_world [] demo_images) [] ''https://acme.test/gone.png'') =
     rejected ''fetch_failed''
   \<and> fst (downloadAndValidateImage (demo_world [] demo_images) [] ''https://acme.test/none.png'') =
     rejected ''download_error''
   \<and> fst (downloadAndValidateImage (demo_world [] demo_images) [] ''https://acme.test/cut.png'') =
     rejected ''download_error''"
proof -
  let ?w = "demo_world [] demo_images"
  have "fst (downloadAndValidateImage ?w [] ''https://acme.test/logo.png'') =
     \<lparr>lc_ok = True, lc_tooLarge = False, lc_reason = None, lc_size = None,
      lc_logo = Some \<lparr>logo_url = ''https://acme.test/logo.png'', logo_size = 3,
                      logo_contentType = ''image/png'', logo_data = [1, 2, 3]\<rparr>\<rparr>"
    using C5_download_outcomes[of ?w "[]" "''https://acme.test/logo.png''"
        "\<lparr>res_ok = True, res_content_type = Some ''Image/PNG'', res_body = Some [1, 2, 3]\<rparr>"
        "[1, 2, 3]"]
    by (simp add: demo_eval acceptedContentType_def string_eval)
  moreover have "fst (downloadAndValidateImage ?w [] ''https://acme.test/big.png'') =
     \<lparr>lc_ok = False, lc_tooLarge = True, lc_reason = Some ''too_large'',
      lc_size = Some 2097152, lc_logo = None\<rparr>"
    using C5_download_outcomes[of ?w "[]" "''https://acme.test/big.png''"
        "\<lparr>res_ok = True, res_content_type = Some ''image/png'',
          res_body = Some (replicate 2097152 0)\<rparr>" "replicate 2097152 0"]
    by (simp add: demo_eval acceptedContentType_def string_eval)
  moreover have "fst (downloadAndValidateImage ?w [] ''https://acme.test/page.png'') =
     rejected ''unsupported_type''"
    using C5_download_outcomes[of ?w "[]" "''https://acme.test/page.png''"
        "\<lparr>res_ok = True, res_content_type = Some ''text/html'', res_body = Some [1, 2, 3]\<rparr>"]
    by (simp add: demo_eval acceptedContentType_def string_eval)
  moreover have "fst (downloadAndValidateImage ?w [] ''https://acme.test/gone.png'') =
     rejected ''fetch_failed''"
    using C5_download_outcomes[of ?w "[]" "''https://acme.test/gone.png''"
        "\<lparr>res_ok = False, res_content_type = Some ''image/png'', res_body = Some []\<rparr>"]
    by (simp add: demo_eval)
  moreover have "fst (downloadAndValidateImage ?w [] ''https://acme.test/none.png'') =
     rejected ''download_error''"
    using C5_download_outcomes[of ?w "[]" "''https://acme.test/none.png''"]
    by (simp add: demo_eval)
  moreover have "fst (downloadAndValidateImage ?w [] ''https://acme.test/cut.png'') =
     rejected ''download_error''"
    using C5_download_outcomes[of ?w "[]" "''https://acme.test/cut.png''"
        "\<lparr>res_ok = True, res_content_type = Some ''image/png'', res_body = None\<rparr>"]
    by (simp add: demo_eval acceptedContentType_def string_eval)
  ultimately show ?thesis by blast
qed


section \<open>The validation loop\<close>

lemma validateLoop_continue:
  assumes "lc_reason (fst (downloadAndValidateImage w log (cand_url c)))
             \<in> {Some ''fetch_failed'', Some ''unsupported_type'', Some ''download_error''}"
  shows "validateLoop w sp log (c # cs) = validateLoop w sp (log @ [cand_url c]) cs"
proof -
  obtain logoCheck log' where d: "downloadAndValidateImage w log (cand_url c) = (logoCheck, log')"
    by (cases "downloadAndValidateImage w log (cand_url c)")
  have l: "log' = log @ [cand_url c]" using download_log[of w log "cand_url c"] d by simp
  have "\<not> lc_ok logoCheck" "\<not> lc_tooLarge logoCheck"
    using assms download_flags(1,2)[of w log "cand_url c"] d by auto
  then show ?thesis using d l by simp
qed

lemma validateLoop_too_large:
  assumes "lc_reason (fst (downloadAndValidateImage w log (cand_url c))) = Some ''too_large''"
  shows "validateLoop w sp log (c # cs) =
           (Some (failure ''logo greater than image limit'' (Some sp)), log @ [cand_url c])"
proof -
  obtain logoCheck log' where d: "downloadAndValidateImage w log (cand_url c) = (logoCheck, log')"
    by (cases "downloadAndValidateImage w log (cand_url c)")
  have l: "log' = log @ [cand_url c]" using download_log[of w log "cand_url c"] d by simp
  have "\<not> lc_ok logoCheck" "lc_tooLarge logoCheck"
    using assms download_flags(1,2)[of w log "cand_url c"] d by auto
  then show ?thesis using d l by simp
qed

lemma validateLoop_skip:
  "\<forall>i<length pre. lc_reason (fst (downloadAndValidateImage w (log @ map cand_url (take i pre))
                                     (cand_url (pre ! i))))
       \<in> {Some ''fetch_failed'', Some ''unsupported_type'', Some ''download_error''} \<Longrightarrow>
   validateLoop w sp log (pre @ rest) = validateLoop w sp (log @ map cand_url pre) rest"
proof (induction pre arbitrary: log)
  case Nil
  then show ?case by simp
next
  case (Cons p pre)
  from Cons.prems[rule_format, of 0]
  have head: "lc_reason (fst (downloadAndValidateImage w log (cand_url p)))
       \<in> {Some ''fetch_failed'', Some ''unsupported_type'', Some ''download_error''}"
    by simp
  have tail: "\<forall>i<length pre. lc_reason (fst (downloadAndValidateImage w
                 ((log @ [cand_url p]) @ map cand_url (take i pre)) (cand_url (pre ! i))))
       \<in> {Some ''fetch_failed'', Some ''unsupported_type'', Some ''download_error''}"
  proof (intro allI impI)
    fix i assume "i < length pre"
    then show "lc_reason (fst (downloadAndValidateImage w
                 ((log @ [cand_url p]) @ map cand_url (take i pre)) (cand_url (pre ! i))))
       \<in> {Some ''fetch_failed'', Some ''unsupported_type'', Some ''download_error''}"
      using Cons.prems[rule_format, of "Suc i"] by simp
  qed
  have "validateLoop w sp log ((p # pre) @ rest) = validateLoop w sp (log @ [cand_url p]) (pre @ rest)"
    using validateLoop_continue[OF head] by simp
  also have "\<dots> = validateLoop w sp ((log @ [cand_url p]) @ map cand_url pre) rest"
    by (rule Cons.IH[OF tail])
  finally show ?case by simp
qed

text \<open>
  Claim C1. Let the candidates in descending-score order be \<open>pre @ c # post\<close>, where
  every candidate of \<open>pre\<close>, when its turn comes, is rejected with \<open>fetch_failed\<close>,
  \<open>unsupported_type\<close> or \<open>download_error\<close>. Then
  \<^item> if the validation of \<open>c\<close> is rejected with \<open>too_large\<close>, the loop ends there with
    the failure \<open>logo greater than image limit\<close>, which is the result of the pipeline;
    the requests made are those for \<open>pre\<close> and \<open>c\<close>, so no candidate of \<open>post\<close> is
    validated, whatever its validation would give;
  \<^item> if \<open>c\<close> is rejected with one of the three other reasons, the loop goes on with
    \<open>post\<close>.
\<close>

theorem C1_too_large_short_circuits:
  assumes "\<forall>i<length pre. lc_reason (fst (downloadAndValidateImage w (log @ map cand_url (take i pre))
                                     (cand_url (pre ! i))))
       \<in> {Some ''fetch_failed'', Some ''unsupported_type'', Some ''download_error''}"
  shows "(lc_reason (fst (downloadAndValidateImage w (log @ map cand_url pre) (cand_url c)))
            = Some ''too_large'' \<longrightarrow>
          validateLoop w sp log (pre @ c # post) =
            (Some (failure ''logo greater than image limit'' (Some sp)),
             log @ map cand_url pre @ [cand_url c])
          \<and> (sortCandidates candidates = pre @ c # post \<longrightarrow>
             selectLogo w sp log candidates =
               (failure ''logo greater than image limit'' (Some sp),
                log @ map cand_url pre @ [cand_url c])))
       \<and> (lc_reason (fst (downloadAndValidateImage w (log @ map cand_url pre) (cand_url c)))
            \<in> {Some ''fetch_failed'', Some ''unsupported_type'', Some ''download_error''} \<longrightarrow>
          validateLoop w sp log (pre @ c # post) =
            validateLoop w sp (log @ map cand_url pre @ [cand_url c]) post)"
proof -
  have skip: "validateLoop w sp log (pre @ c # post) =
      validateLoop w sp (log @ map cand_url pre) (c # post)"
    by (rule validateLoop_skip[OF assms])
  have nonempty: "sortCandidates candidates = pre @ c # post \<Longrightarrow> length candidates \<noteq> 0"
    by (auto simp: sortCandidates_def array_sort_def)
  show ?thesis
    using skip nonempty
      validateLoop_too_large[of w "log @ map cand_url pre" c sp post]
      validateLoop_continue[of w "log @ map cand_url pre" c sp post]
    by (auto simp: selectLogo_def)
qed


theorem C1_too_large_short_circuits_witness:
  "selectLogo (demo_world [] demo_images) emptySocialProfiles [] demo_candidates =
     (failure ''logo greater than image limit'' (Some emptySocialProfiles),
      [''https://acme.test/gone.png'', ''https://acme.test/big.png''])
   \<and> lc_ok (fst (downloadAndValidateImage (demo_world [] demo_images)
        [''https://acme.test/gone.png'', ''https://acme.test/big.png'']
        ''https://acme.test/logo.png''))
   \<and> validateLoop (demo_world [] demo_images) emptySocialProfiles []
        [\<lparr>cand_url = ''https://acme.test/gone.png'', cand_score = 15\<rparr>,
         \<lparr>cand_url = ''https://acme.test/logo.png'', cand_score = 1\<rparr>]
     = validateLoop (demo_world [] demo_images) emptySocialProfiles [''https://acme.test/gone.png'']
        [\<lparr>cand_url = ''https://acme.test/logo.png'', cand_score = 1\<rparr>]"
proof -
  let ?w = "demo_world [] demo_images"
  let ?logo = "\<lparr>cand_url = ''https://acme.test/logo.png'', cand_score = 1\<rparr>"
  let ?gone = "\<lparr>cand_url = ''https://acme.test/gone.png'', cand_score = 15\<rparr>"
  let ?big = "\<lparr>cand_url = ''https://acme.test/big.png'', cand_score = 10\<rparr>"
  have sorted: "sortCandidates demo_candidates = [?gone] @ ?big # [?logo]"
    by (simp add: demo_candidates_def sortCandidates_def array_sort_def)
  have gone: "lc_reason (fst (downloadAndValidateImage ?w [] ''https://acme.test/gone.png''))
      = Some ''fetch_failed''"
    by (simp add: downloadAndValidateImage_def demo_eval rejected_def)
  have big: "lc_reason (fst (downloadAndValidateImage ?w [''https://acme.test/gone.png'']
      ''https://acme.test/big.png'')) = Some ''too_large''"
    by (simp add: downloadAndValidateImage_def demo_eval Let_def string_eval MAX_LOGO_BYTES_def)
  have logo: "lc_ok (fst (downloadAndValidateImage ?w
        [''https://acme.test/gone.png'', ''https://acme.test/big.png'']
        ''https://acme.test/logo.png''))"
    by (simp add: downloadAndValidateImage_def demo_eval Let_def string_eval MAX_LOGO_BYTES_def)
  have pre: "\<forall>i<length [?gone]. lc_reason (fst (downloadAndValidateImage ?w
        ([] @ map cand_url (take i [?gone])) (cand_url ([?gone] ! i))))
       \<in> {Some ''fetch_failed'', Some ''unsupported_type'', Some ''download_error''}"
    using gone by simp
  have "selectLogo ?w emptySocialProfiles [] demo_candidates =
     (failure ''logo greater than image limit'' (Some emptySocialProfiles),
      [''https://acme.test/gone.png'', ''https://acme.test/big.png''])"
    using C1_too_large_short_circuits[OF pre, of ?big emptySocialProfiles "[?logo]" demo_candidates] big sorted
    by simp
  moreover have "validateLoop ?w emptySocialProfiles [] [?gone, ?logo]
     = validateLoop ?w emptySocialProfiles [''https://acme.test/gone.png''] [?logo]"
    using C1_too_large_short_circuits[of "[]" ?w "[]" ?gone emptySocialProfiles "[?logo]"] gone
    by simp
  ultimately show ?thesis using logo by blast
qed

section \<open>The social link classifier\<close>

lemma classify_entries:
  "distinct (map fst entries) \<Longrightarrow>
   classify host absolute entries found key =
     (case map_of entries key of
        None \<Rightarrow> found key
      | Some domains \<Rightarrow>
          if truthy (found key) then found key
          else if domains_match host domains then Some absolute else found key)"
proof (induction entries arbitrary: found)
  case Nil
  then show ?case by simp
next
  case (Cons entry entries)
  obtain k ds where entry: "entry = (k, ds)" by (cases entry)
  from Cons.prems entry have d: "distinct (map fst entries)" and k: "k \<notin> fst ` set entries"
    by auto
  from k have none: "map_of entries k = None"
    by (simp add: map_of_eq_None_iff)
  show ?case
    using Cons.IH[OF d] none
    by (auto simp: entry split: option.splits)
qed

lemma classify_SOCIAL_DOMAINS:
  "classify host absolute SOCIAL_DOMAINS found key =
     (if truthy (found key) then found key
      else if domains_match host (domains_of key) then Some absolute else found key)"
proof -
  have d: "distinct (map fst SOCIAL_DOMAINS)" by (simp add: SOCIAL_DOMAINS_def)
  have "map_of SOCIAL_DOMAINS key = Some (domains_of key)"
    by (cases key) (simp_all add: domains_of_def SOCIAL_DOMAINS_def)
  then show ?thesis using classify_entries[OF d] by simp
qed

lemma visitAnchor_key:
  "visitAnchor w baseUrl found el key =
     (case anchorTarget w baseUrl el of
        None \<Rightarrow> found key
      | Some (host, absolute) \<Rightarrow>
          if truthy (found key) then found key
          else if domains_match host (domains_of key) then Some absolute else found key)"
  by (simp add: visitAnchor_def classify_SOCIAL_DOMAINS split: option.splits)

lemma foldl_visitAnchor:
  assumes "\<forall>el\<in>set els. \<forall>host absolute. anchorTarget w baseUrl el = Some (host, absolute) \<longrightarrow> absolute \<noteq> []"
    and "found key \<noteq> Some []"
  shows "foldl (visitAnchor w baseUrl) found els key =
     (case found key of
        Some v \<Rightarrow> Some v
      | None \<Rightarrow>
          (case find (anchorMatches w baseUrl key) els of
             None \<Rightarrow> None
           | Some el \<Rightarrow> map_option snd (anchorTarget w baseUrl el)))"
  using assms
proof (induction els arbitrary: found)
  case Nil
  then show ?case by (simp split: option.splits)
next
  case (Cons el els)
  let ?found' = "visitAnchor w baseUrl found el"
  have step: "?found' key =
     (case found key of
        Some v \<Rightarrow> Some v
      | None \<Rightarrow> if anchorMatches w baseUrl key el
                then map_option snd (anchorTarget w baseUrl el) else None)"
    using Cons.prems(2)
    by (auto simp: visitAnchor_key anchorMatches_def truthy_def split: option.splits)
  have ne: "?found' key \<noteq> Some []"
    using Cons.prems step
    by (auto simp: anchorMatches_def split: option.splits if_splits)
  have rest: "\<forall>el\<in>set els. \<forall>host absolute. anchorTarget w baseUrl el = Some (host, absolute) \<longrightarrow> absolute \<noteq> []"
    using Cons.prems(1) by simp
  have some: "anchorMatches w baseUrl key el \<Longrightarrow> \<exists>v. map_option snd (anchorTarget w baseUrl el) = Some v"
    by (auto simp: anchorMatches_def split: option.splits)
  show ?case
    using Cons.IH[of ?found', OF rest ne] step some
    by (auto split: option.splits)
qed


lemma anchorTarget_nonempty:
  assumes "\<forall>s b u. resolve_url w s b = Some u \<longrightarrow> href u \<noteq> []"
  shows "anchorTarget w baseUrl el = Some (host, absolute) \<Longrightarrow> absolute \<noteq> []"
  using assms
  by (auto simp: anchorTarget_def Let_def split: if_splits option.splits)

lemma extractSocialProfiles_first_match:
  assumes "\<forall>s b u. resolve_url w s b = Some u \<longrightarrow> href u \<noteq> []"
  shows "extractSocialProfiles w doc baseUrl key =
           (case find (anchorMatches w baseUrl key) (select_a_href doc) of
              None \<Rightarrow> None
            | Some el \<Rightarrow> map_option snd (anchorTarget w baseUrl el))"
proof -
  have "\<forall>el\<in>set (select_a_href doc). \<forall>host absolute.
          anchorTarget w baseUrl el = Some (host, absolute) \<longrightarrow> absolute \<noteq> []"
    using anchorTarget_nonempty[OF assms] by blast
  from foldl_visitAnchor[OF this, of emptySocialProfiles key]
  show ?thesis by (simp add: extractSocialProfiles_def emptySocialProfiles_def)
qed









lemma demo_urls_nonempty:
  "\<forall>s b u. resolve_url (demo_world doc net) s b = Some u \<longrightarrow> href u \<noteq> []"
  by (auto simp: demo_world_def demo_resolve_def demo_parse_def startsWith_def Let_def
      split: if_splits)

lemmas anchor_eval =
  anchorMatches_def anchorTarget_def select_a_href_def anchor_def attr_def demo_world_sel
  demo_resolve_def demo_parse_def domains_match_def domains_of_def SOCIAL_DOMAINS_def Let_def



lemma find_first:
  "\<forall>x\<in>set pre. \<not> P x \<Longrightarrow> P a \<Longrightarrow> find P (pre @ a # post) = Some a"
  by (induction pre) auto

lemma find_member: "a \<in> set xs \<Longrightarrow> P a \<Longrightarrow> \<exists>x. find P xs = Some x \<and> P x"
  by (induction xs) auto

lemma reference_world_sel:
  "parse_url (reference_world doc) = demo_parse"
  "resolve_url (reference_world doc) = reference_resolve"
  by (simp_all add: reference_world_def demo_world_def)

lemma reference_urls_nonempty:
  "\<forall>s b u. resolve_url (reference_world doc) s b = Some u \<longrightarrow> href u \<noteq> []"
  by (auto simp: reference_world_sel reference_resolve_def demo_parse_def startsWith_def Let_def
      split: if_splits)

lemma reference_local_law:
  "\<forall>h. local_reference h \<longrightarrow>
     (\<exists>u. resolve_url (reference_world doc) h facebook_base = Some u \<and>
          hostname u = hostname facebook_base)"
  by (simp add: reference_world_sel reference_resolve_def local_reference_def Let_def)

lemma demo_parse_idem: "demo_parse s = Some u \<Longrightarrow> demo_parse (href u) = Some u"
  by (auto simp: demo_parse_def Let_def split: if_splits)

lemma reference_roundtrip:
  "\<forall>h u. resolve_url (reference_world doc) h facebook_base = Some u \<longrightarrow>
     (\<exists>u'. parse_url (reference_world doc) (href u) = Some u' \<and> hostname u' = hostname u)"
proof (intro allI impI)
  fix h u assume r: "resolve_url (reference_world doc) h facebook_base = Some u"
  let ?s = "url_input h"
  consider "demo_parse ?s = Some u" | "demo_parse (''https://'' @ drop 2 ?s) = Some u"
    | t where "?s = CHR ''/'' # t" "u = \<lparr>href = ''https://facebook.com'' @ ?s, hostname = ''facebook.com''\<rparr>"
    | "u = \<lparr>href = ''https://facebook.com/'' @ ?s, hostname = ''facebook.com''\<rparr>"
    using r
    by (auto simp: reference_world_sel reference_resolve_def Let_def facebook_base_def
        startsWith_def prefix_def split: if_splits)
  then show "\<exists>u'. parse_url (reference_world doc) (href u) = Some u' \<and> hostname u' = hostname u"
  proof cases
    case 1
    then show ?thesis using demo_parse_idem by (auto simp: reference_world_sel)
  next
    case 2
    then show ?thesis using demo_parse_idem by (auto simp: reference_world_sel)
  next
    case 3
    then show ?thesis
      by (simp add: reference_world_sel demo_parse_def Let_def startsWith_def)
  next
    case 4
    then show ?thesis
      by (simp add: reference_world_sel demo_parse_def Let_def startsWith_def)
  qed
qed


lemma local_anchor_target:
  assumes "\<forall>h. local_reference h \<longrightarrow>
             (\<exists>u. resolve_url w h baseUrl = Some u \<and> hostname u = hostname baseUrl)"
    and "\<forall>h u. resolve_url w h baseUrl = Some u \<longrightarrow>
             (\<exists>u'. parse_url w (href u) = Some u' \<and> hostname u' = hostname u)"
    and "or_empty (attr a ''href'') \<noteq> []"
    and "local_reference (or_empty (attr a ''href''))"
  shows "\<exists>u. resolve_url w (or_empty (attr a ''href'')) baseUrl = Some u \<and>
             anchorTarget w baseUrl a = Some (toLowerCase (hostname baseUrl), href u)"
proof -
  from assms(1,4) obtain u where
    u: "resolve_url w (or_empty (attr a ''href'')) baseUrl = Some u"
      "hostname u = hostname baseUrl"
    by blast
  from assms(2) u(1) obtain u' where
    u': "parse_url w (href u) = Some u'" "hostname u' = hostname u"
    by blast
  from u u' assms(3)
  have "anchorTarget w baseUrl a = Some (toLowerCase (hostname baseUrl), href u)"
    by (simp add: anchorTarget_def Let_def)
  with u(1) show ?thesis by blast
qed

lemmas reference_eval =
  anchorMatches_def anchorTarget_def select_a_href_def anchor_def attr_def reference_world_sel
  reference_resolve_def demo_parse_def url_input_def isC0OrSpace_def isTabOrNewline_def
  has_scheme_def isAsciiAlpha_def isSchemeChar_def isSlash_def starts_authority_def
  domains_match_def domains_of_def SOCIAL_DOMAINS_def Let_def

text \<open>
  Claim C10, as stated, at the base \<open>https://facebook.com/somepage\<close>, whose host is a
  domain of facebook, in an environment that resolves references as the URL Standard
  does.
  \<^item> The page with the single anchor \<open>href="//x.com/a"\<close>: the href is not empty and
    has no scheme, so it is a relative reference, but it is scheme-relative and
    resolves to \<open>https://x.com/a\<close>. The anchor does not match facebook, the facebook
    field stays null and the twitter field is filled.
  \<^item> The page with \<open>href="https://www.facebook.com/real"\<close> followed by
    \<open>href="/privacy"\<close>: the facebook field is the first link, not the first anchor
    with a relative href.
\<close>

theorem C10_scheme_relative_href_does_not_match:
  "domains_match (toLowerCase (hostname facebook_base)) (domains_of facebook)
   \<and> or_empty (attr (anchor ''//x.com/a'') ''href'') \<noteq> []
   \<and> \<not> has_scheme (url_input ''//x.com/a'')
   \<and> resolve_url (reference_world scheme_relative_links) ''//x.com/a'' facebook_base
       = Some \<lparr>href = ''https://x.com/a'', hostname = ''x.com''\<rparr>
   \<and> \<not> anchorMatches (reference_world scheme_relative_links) facebook_base facebook
         (anchor ''//x.com/a'')
   \<and> extractSocialProfiles (reference_world scheme_relative_links) scheme_relative_links
        facebook_base facebook = None
   \<and> extractSocialProfiles (reference_world scheme_relative_links) scheme_relative_links
        facebook_base twitter = Some ''https://x.com/a''
   \<and> extractSocialProfiles (reference_world mixed_links) mixed_links facebook_base facebook
        = Some ''https://www.facebook.com/real''"
  by (simp add: extractSocialProfiles_first_match[OF reference_urls_nonempty]
      scheme_relative_links_def mixed_links_def facebook_base_def reference_eval string_eval)

text \<open>
  Claim C10, amended. Assume of the URL library that a serialisation is never the empty
  string, that every local reference (no scheme, not starting with two slashes)
  resolves against the base to a URL on the base's host, and that parsing the
  serialisation of a resolved URL gives its host back. Let the lowercased host of the
  base be one of the domains of a platform or a subdomain of one, and let the anchor
  \<open>a\<close> have a non-empty href that is a local reference. Then
  \<^item> \<open>a\<close> matches that platform: its href resolves to a URL \<open>u\<close> on the base's host,
    and the classifier sees the base's lowercased host and the serialisation of \<open>u\<close>;
  \<^item> if no anchor before \<open>a\<close> matches the platform, the platform's field is the
    serialisation of \<open>u\<close>, the internal link;
  \<^item> if \<open>a\<close> is an anchor of the page, the platform's field is filled, by the first
    anchor in document order that matches the platform.
\<close>

theorem C10_base_on_platform_host:
  assumes "\<forall>s b u. resolve_url w s b = Some u \<longrightarrow> href u \<noteq> []"
    and "\<forall>h. local_reference h \<longrightarrow>
             (\<exists>u. resolve_url w h baseUrl = Some u \<and> hostname u = hostname baseUrl)"
    and "\<forall>h u. resolve_url w h baseUrl = Some u \<longrightarrow>
             (\<exists>u'. parse_url w (href u) = Some u' \<and> hostname u' = hostname u)"
    and "domains_match (toLowerCase (hostname baseUrl)) (domains_of key)"
    and "or_empty (attr a ''href'') \<noteq> []"
    and "local_reference (or_empty (attr a ''href''))"
  shows "anchorMatches w baseUrl key a
     \<and> (\<exists>u. resolve_url w (or_empty (attr a ''href'')) baseUrl = Some u \<and>
            hostname u = hostname baseUrl \<and>
            anchorTarget w baseUrl a = Some (toLowerCase (hostname baseUrl), href u) \<and>
            (select_a_href doc = pre @ a # post \<and>
             (\<forall>el\<in>set pre. \<not> anchorMatches w baseUrl key el) \<longrightarrow>
               extractSocialProfiles w doc baseUrl key = Some (href u)))
     \<and> (a \<in> set (select_a_href doc) \<longrightarrow>
          (\<exists>el host absolute.
             find (anchorMatches w baseUrl key) (select_a_href doc) = Some el \<and>
             anchorTarget w baseUrl el = Some (host, absolute) \<and>
             extractSocialProfiles w doc baseUrl key = Some absolute))"
proof -
  from assms(2,6) obtain u where
    u: "resolve_url w (or_empty (attr a ''href'')) baseUrl = Some u"
      "hostname u = hostname baseUrl"
    by blast
  from local_anchor_target[OF assms(2,3,5,6)] u(1)
  have t: "anchorTarget w baseUrl a = Some (toLowerCase (hostname baseUrl), href u)"
    by simp
  have m: "anchorMatches w baseUrl key a"
    using assms(4) t by (simp add: anchorMatches_def)
  have first: "extractSocialProfiles w doc baseUrl key = Some (href u)"
    if "select_a_href doc = pre @ a # post" "\<forall>el\<in>set pre. \<not> anchorMatches w baseUrl key el"
    using find_first[OF that(2) m, of post] that(1) t
    by (simp add: extractSocialProfiles_first_match[OF assms(1)])
  have filled: "\<exists>el host absolute.
             find (anchorMatches w baseUrl key) (select_a_href doc) = Some el \<and>
             anchorTarget w baseUrl el = Some (host, absolute) \<and>
             extractSocialProfiles w doc baseUrl key = Some absolute"
    if "a \<in> set (select_a_href doc)"
  proof -
    from find_member[OF that, of "anchorMatches w baseUrl key"] m
    obtain x where x: "find (anchorMatches w baseUrl key) (select_a_href doc) = Some x"
      and mx: "anchorMatches w baseUrl key x" by blast
    from mx obtain host absolute where "anchorTarget w baseUrl x = Some (host, absolute)"
      by (auto simp: anchorMatches_def split: option.splits)
    with x show ?thesis
      by (simp add: extractSocialProfiles_first_match[OF assms(1)])
  qed
  from m u t first filled show ?thesis by blast
qed

theorem C10_base_on_platform_host_witness:
  "anchorMatches (reference_world internal_links) facebook_base facebook (anchor ''/privacy'')
   \<and> anchorMatches (reference_world internal_links) facebook_base facebook (anchor ''help'')
   \<and> extractSocialProfiles (reference_world internal_links) internal_links facebook_base facebook
       = Some ''https://facebook.com/privacy''"
proof -
  let ?w = "reference_world internal_links"
  have base: "domains_match (toLowerCase (hostname facebook_base)) (domains_of facebook)"
    by (simp add: facebook_base_def domains_match_def domains_of_def SOCIAL_DOMAINS_def string_eval)
  have h1: "or_empty (attr (anchor ''/privacy'') ''href'') \<noteq> []"
    and l1: "local_reference (or_empty (attr (anchor ''/privacy'') ''href''))"
    and h2: "or_empty (attr (anchor ''help'') ''href'') \<noteq> []"
    and l2: "local_reference (or_empty (attr (anchor ''help'') ''href''))"
    by (simp_all add: local_reference_def reference_eval string_eval)
  have r1: "resolve_url ?w (or_empty (attr (anchor ''/privacy'') ''href'')) facebook_base
      = Some \<lparr>href = ''https://facebook.com/privacy'', hostname = ''facebook.com''\<rparr>"
    by (simp add: facebook_base_def reference_eval string_eval)
  have sel: "select_a_href internal_links
      = [anchor ''https://acme.test/''] @ anchor ''/privacy'' # [anchor ''help'']"
    by (simp add: internal_links_def select_a_href_def anchor_def attr_def)
  have pre: "\<forall>el\<in>set [anchor ''https://acme.test/'']. \<not> anchorMatches ?w facebook_base facebook el"
    by (simp add: facebook_base_def reference_eval string_eval)
  note law = reference_urls_nonempty[of internal_links] reference_local_law[of internal_links]
    reference_roundtrip[of internal_links] base
  from C10_base_on_platform_host[OF law h1 l1, where doc = internal_links
      and pre = "[anchor ''https://acme.test/'']" and post = "[anchor ''help'']"]
    sel pre r1
  have "anchorMatches ?w facebook_base facebook (anchor ''/privacy'')
     \<and> extractSocialProfiles ?w internal_links facebook_base facebook
         = Some ''https://facebook.com/privacy''"
    by auto
  moreover from C10_base_on_platform_host[OF law h2 l2]
  have "anchorMatches ?w facebook_base facebook (anchor ''help'')"
    by blast
  ultimately show ?thesis by blast
qed

section \<open>The pipeline as a whole\<close>

lemma trim_empty: "trim [] = []"
  by (simp add: trim_def)

lemma validateLoop_result:
  "validateLoop w sp log cs = (Some r, log') \<Longrightarrow> well_formed r \<and> socialProfiles r = Some sp"
proof (induction cs arbitrary: log)
  case Nil
  then show ?case by simp
next
  case (Cons c cs)
  obtain logoCheck l where d: "downloadAndValidateImage w log (cand_url c) = (logoCheck, l)"
    by (cases "downloadAndValidateImage w log (cand_url c)")
  show ?case
    using Cons.prems Cons.IH[of l] d
    by (auto simp: well_formed_def failure_def split: if_splits)
qed

lemma selectLogo_result:
  "well_formed (fst (selectLogo w sp log candidates))
   \<and> socialProfiles (fst (selectLogo w sp log candidates)) = Some sp"
proof (cases "validateLoop w sp log (sortCandidates candidates)")
  case (Pair chosen log')
  then show ?thesis
    using validateLoop_result[of w sp log "sortCandidates candidates" _ log']
    by (cases chosen) (auto simp: selectLogo_def well_formed_def failure_def)
qed

lemma tryBlock_result:
  assumes "fst (tryBlock w parsedUrl log) = Inr r"
  shows "well_formed r \<and> socialProfiles r \<noteq> None"
proof -
  have "well_formed (failure ''could not identify logo'' (Some emptySocialProfiles))"
    by (simp add: well_formed_def failure_def)
  then show ?thesis
    using assms selectLogo_result
    by (auto simp: tryBlock_def Let_def failure_def split_def
        split: fetch_outcome.splits if_splits option.splits sum.splits)
qed

lemma fetchCompanyLogo_returns:
  "\<exists>r. fst (fetchCompanyLogo w log targetUrl) = Inr r \<and> well_formed r"
proof -
  have a: "well_formed \<lparr>success = False, message = ''False'', logo = None, socialProfiles = None\<rparr>"
    "well_formed \<lparr>success = False, message = ''Malformed URL'', logo = None, socialProfiles = None\<rparr>"
    "well_formed (failure ''could not identify logo'' (Some emptySocialProfiles))"
    by (simp_all add: well_formed_def failure_def)
  show ?thesis
  proof (cases "targetUrl = [] \<or> trim targetUrl = []")
    case True
    then show ?thesis using a(1) by (auto simp: fetchCompanyLogo_def)
  next
    case False
    show ?thesis
    proof (cases "parse_url w targetUrl")
      case None
      then show ?thesis using False a(2) by (auto simp: fetchCompanyLogo_def)
    next
      case (Some parsedUrl)
      obtain x log' where t: "tryBlock w parsedUrl log = (x, log')"
        by (cases "tryBlock w parsedUrl log")
      show ?thesis
      proof (cases x)
        case (Inl e)
        then show ?thesis using False Some t a(3) by (auto simp: fetchCompanyLogo_def)
      next
        case (Inr r)
        then have "well_formed r" using tryBlock_result[of w parsedUrl log r] t by simp
        then show ?thesis using False Some t Inr by (auto simp: fetchCompanyLogo_def)
      qed
    qed
  qed
qed

lemma fetchCompanyLogo_caught:
  assumes "trim targetUrl \<noteq> []" "parse_url w targetUrl = Some parsedUrl"
    "fst (tryBlock w parsedUrl log) = Inl e"
  shows "fst (fetchCompanyLogo w log targetUrl) =
           Inr (failure ''could not identify logo'' (Some emptySocialProfiles))"
proof -
  from assms(1) have "targetUrl \<noteq> []" using trim_empty by auto
  then show ?thesis using assms
    by (cases "tryBlock w parsedUrl log") (auto simp: fetchCompanyLogo_def)
qed

lemma tryBlock_raises_iff:
  "(\<exists>e. fst (tryBlock w parsedUrl log) = Inl e) \<longleftrightarrow>
     fetch w log (href parsedUrl) = NetworkFailure
     \<or> (\<exists>pageRes. fetch w log (href parsedUrl) = Response pageRes \<and> res_ok pageRes \<and>
           (res_body pageRes = None
            \<or> (\<exists>bytes e. res_body pageRes = Some bytes \<and>
                 collectCandidates w parsedUrl (select_img (load w (decode w bytes))) [] = Inl e)))"
  by (auto simp: tryBlock_def Let_def split_def
      split: fetch_outcome.splits if_splits option.splits sum.splits)

lemma fetchCompanyLogo_empty:
  "trim targetUrl = [] \<Longrightarrow>
   fetchCompanyLogo w log targetUrl =
     (Inr \<lparr>success = False, message = ''False'', logo = None, socialProfiles = None\<rparr>, log)"
  by (simp add: fetchCompanyLogo_def)

lemma fetchCompanyLogo_malformed:
  "trim targetUrl \<noteq> [] \<Longrightarrow> parse_url w targetUrl = None \<Longrightarrow>
   fetchCompanyLogo w log targetUrl =
     (Inr \<lparr>success = False, message = ''Malformed URL'', logo = None, socialProfiles = None\<rparr>, log)"
  using trim_empty by (auto simp add: fetchCompanyLogo_def)

lemma fetchCompanyLogo_normalized:
  assumes "trim targetUrl \<noteq> []" "parse_url w targetUrl = Some parsedUrl"
  shows "\<exists>r. fst (fetchCompanyLogo w log targetUrl) = Inr r \<and> socialProfiles r \<noteq> None"
proof -
  from assms(1) have ne: "targetUrl \<noteq> []" using trim_empty by auto
  obtain x log' where t: "tryBlock w parsedUrl log = (x, log')"
    by (cases "tryBlock w parsedUrl log")
  show ?thesis
  proof (cases x)
    case (Inl e)
    then show ?thesis using ne assms t by (auto simp: fetchCompanyLogo_def failure_def)
  next
    case (Inr r)
    then have "socialProfiles r \<noteq> None" using tryBlock_result[of w parsedUrl log r] t by simp
    then show ?thesis using ne assms t Inr by (auto simp: fetchCompanyLogo_def)
  qed
qed


lemmas pipeline_eval =
  fetchCompanyLogo_def tryBlock_def selectLogo_def scanImage_def imageScore_def
  scoreImageCandidate_def has_image_extension_def select_img_def img_def
  sortCandidates_def array_sort_def downloadAndValidateImage_def page_response_def
  demo_net_def demo_eval MAX_LOGO_BYTES_def failure_def rejected_def

lemma scanImage_unresolvable:
  assumes "trim (or_empty (attr el ''src'')) = src" "src \<noteq> []" "\<not> startsWith src ''data:''"
    "has_image_extension (toLowerCase src)" "resolve_url w src parsedUrl = None"
  shows "scanImage w parsedUrl el = Inl TypeError"
  using assms by (simp add: scanImage_def Let_def)

lemma collectCandidates_aborts:
  "el \<in> set els \<Longrightarrow> scanImage w parsedUrl el = Inl e \<Longrightarrow>
   \<exists>e'. collectCandidates w parsedUrl els candidates = Inl e'"
proof (induction els arbitrary: candidates)
  case Nil
  then show ?case by simp
next
  case (Cons x els)
  show ?case
  proof (cases "scanImage w parsedUrl x")
    case (Inl a)
    then show ?thesis by simp
  next
    case (Inr c)
    with Cons.prems have "el \<in> set els" by auto
    from Cons.IH[OF this Cons.prems(2)] Inr show ?thesis
      by (cases c) auto
  qed
qed

lemma broken_scan:
  "collectCandidates (demo_world broken_page demo_net) demo_base (select_img broken_page) [] = Inl TypeError"
  by (simp add: broken_page_def anchor_def pipeline_eval anchor_eval string_eval demo_base_def)

text \<open>
  Claim C4 at the page \<open>broken_page\<close> of \<open>https://acme.test/\<close>: a link to
  \<open>https://facebook.com/acme\<close>, an image with \<open>src="https://[/logo.png"\<close>, which
  passes the extension test and does not resolve, and an image \<open>/logo.png\<close> that
  downloads as a valid PNG. \<open>new URL(src, parsedUrl)\<close> on line 123 throws inside the
  callback, nothing catches it before line 176, and the result is the failure
  \<open>could not identify logo\<close> with all-null social profiles: the scan does not go on to
  the second image and the facebook link that the classifier found is dropped. The
  same page without the first image succeeds with that logo and the facebook link.
\<close>

theorem C4_unresolvable_src_aborts_scan:
  "fst (fetchCompanyLogo (demo_world broken_page demo_net) [] ''https://acme.test/'')
     = Inr (failure ''could not identify logo'' (Some emptySocialProfiles))
   \<and> extractSocialProfiles (demo_world broken_page demo_net) broken_page demo_base facebook
     = Some ''https://facebook.com/acme''
   \<and> (case fst (fetchCompanyLogo (demo_world sound_page demo_net) [] ''https://acme.test/'') of
        Inl e \<Rightarrow> False
      | Inr r \<Rightarrow> success r \<and> map_option logo_url (logo r) = Some ''https://acme.test/logo.png''
                \<and> map_option (\<lambda>sp. sp facebook) (socialProfiles r)
                    = Some (Some ''https://facebook.com/acme''))"
proof -
  have "fst (fetchCompanyLogo (demo_world broken_page demo_net) [] ''https://acme.test/'')
     = Inr (failure ''could not identify logo'' (Some emptySocialProfiles))"
    by (simp add: broken_page_def anchor_def pipeline_eval anchor_eval string_eval)
  moreover have "extractSocialProfiles (demo_world broken_page demo_net) broken_page demo_base facebook
     = Some ''https://facebook.com/acme''"
    by (simp add: extractSocialProfiles_first_match[OF demo_urls_nonempty]
        broken_page_def img_def demo_base_def anchor_eval string_eval)
  moreover have "(case fst (fetchCompanyLogo (demo_world sound_page demo_net) [] ''https://acme.test/'') of
        Inl e \<Rightarrow> False
      | Inr r \<Rightarrow> success r \<and> map_option logo_url (logo r) = Some ''https://acme.test/logo.png''
                \<and> map_option (\<lambda>sp. sp facebook) (socialProfiles r)
                    = Some (Some ''https://facebook.com/acme''))"
    by (simp add: extractSocialProfiles_first_match[OF demo_urls_nonempty]
        sound_page_def pipeline_eval anchor_eval string_eval)
  ultimately show ?thesis by blast
qed


text \<open>
  Claim C2. For every input string and every environment, \<open>fetchCompanyLogo\<close> returns
  a well-formed result and no exception escapes: the value is never \<open>Inl\<close>. When an
  exception leaves the \<open>try\<close> block after normalization, the result is the failure
  \<open>could not identify logo\<close> with all-null social profiles. The exceptions that leave
  the block are: a failed page request, a page body that cannot be read, and the
  exception of the image scan.
\<close>

theorem C2_no_exception_escapes:
  "(\<exists>r. fst (fetchCompanyLogo w log targetUrl) = Inr r \<and> well_formed r)
   \<and> (trim targetUrl \<noteq> [] \<and> parse_url w targetUrl = Some parsedUrl \<and>
       fst (tryBlock w parsedUrl log) = Inl e \<longrightarrow>
       fst (fetchCompanyLogo w log targetUrl) =
         Inr (failure ''could not identify logo'' (Some emptySocialProfiles)))
   \<and> ((\<exists>e. fst (tryBlock w parsedUrl log) = Inl e) \<longleftrightarrow>
        fetch w log (href parsedUrl) = NetworkFailure
        \<or> (\<exists>pageRes. fetch w log (href parsedUrl) = Response pageRes \<and> res_ok pageRes \<and>
              (res_body pageRes = None
               \<or> (\<exists>bytes e. res_body pageRes = Some bytes \<and>
                    collectCandidates w parsedUrl (select_img (load w (decode w bytes))) [] = Inl e))))"
  using fetchCompanyLogo_returns[of w log targetUrl]
    fetchCompanyLogo_caught[of targetUrl w parsedUrl log e]
    tryBlock_raises_iff[of w parsedUrl log]
  by blast

theorem C2_no_exception_escapes_witness:
  "fst (fetchCompanyLogo (demo_world [] []) [] ''https://acme.test/'') =
     Inr (failure ''could not identify logo'' (Some emptySocialProfiles))
   \<and> well_formed (failure ''could not identify logo'' (Some emptySocialProfiles))"
proof -
  let ?w = "demo_world [] []"
  have t: "trim ''https://acme.test/'' \<noteq> []"
    by (simp add: string_eval)
  have p: "parse_url ?w ''https://acme.test/'' = Some demo_base"
    by (simp add: demo_world_sel demo_parse_def demo_base_def string_eval)
  have f: "fst (tryBlock ?w demo_base []) = Inl FetchError"
    by (simp add: tryBlock_def demo_world_sel demo_base_def)
  from C2_no_exception_escapes[of ?w "[]" "''https://acme.test/''" demo_base FetchError] t p f
  show ?thesis by auto
qed

text \<open>
  Claim C7. An input that is empty after trimming gives the failure with the message
  \<open>False\<close> and no socialProfiles field, and no request is made; a non-empty input
  that does not parse as an absolute URL gives the failure \<open>Malformed URL\<close>, also
  without socialProfiles; after a successful normalization every result, and so every
  failure, carries a socialProfiles object.
\<close>

theorem C7_input_failures:
  "(trim targetUrl = [] \<longrightarrow>
      fetchCompanyLogo w log targetUrl =
        (Inr \<lparr>success = False, message = ''False'', logo = None, socialProfiles = None\<rparr>, log))
   \<and> (trim targetUrl \<noteq> [] \<and> parse_url w targetUrl = None \<longrightarrow>
      fetchCompanyLogo w log targetUrl =
        (Inr \<lparr>success = False, message = ''Malformed URL'', logo = None, socialProfiles = None\<rparr>,
         log))
   \<and> (trim targetUrl \<noteq> [] \<and> parse_url w targetUrl = Some parsedUrl \<longrightarrow>
      (\<exists>r. fst (fetchCompanyLogo w log targetUrl) = Inr r \<and> socialProfiles r \<noteq> None))"
  using fetchCompanyLogo_empty[of targetUrl w log] fetchCompanyLogo_malformed[of targetUrl w log]
    fetchCompanyLogo_normalized[of targetUrl w parsedUrl log]
  by blast

theorem C7_input_failures_witness:
  "fetchCompanyLogo (demo_world [] []) [] ''  ''
     = (Inr \<lparr>success = False, message = ''False'', logo = None, socialProfiles = None\<rparr>, [])
   \<and> fetchCompanyLogo (demo_world [] []) [] ''not a url''
     = (Inr \<lparr>success = False, message = ''Malformed URL'', logo = None, socialProfiles = None\<rparr>, [])
   \<and> (\<exists>r. fst (fetchCompanyLogo (demo_world [] []) [] ''https://acme.test/'') = Inr r
           \<and> socialProfiles r \<noteq> None)"
proof -
  let ?w = "demo_world [] []"
  have "fetchCompanyLogo ?w [] ''  ''
     = (Inr \<lparr>success = False, message = ''False'', logo = None, socialProfiles = None\<rparr>, [])"
    using C7_input_failures[of "''  ''" ?w "[]"] by (simp add: string_eval)
  moreover have "fetchCompanyLogo ?w [] ''not a url''
     = (Inr \<lparr>success = False, message = ''Malformed URL'', logo = None, socialProfiles = None\<rparr>, [])"
    using C7_input_failures[of "''not a url''" ?w "[]"]
    by (simp add: demo_world_sel demo_parse_def string_eval)
  moreover have "\<exists>r. fst (fetchCompanyLogo ?w [] ''https://acme.test/'') = Inr r
           \<and> socialProfiles r \<noteq> None"
    using C7_input_failures[of "''https://acme.test/''" ?w "[]" demo_base]
    by (simp add: demo_world_sel demo_parse_def demo_base_def string_eval)
  ultimately show ?thesis by blast
qed

text \<open>
  Claim C9 at a response with the header \<open>Content-Type: image/jpg\<close> and a body of three
  bytes: the downloader accepts it (line 214 admits the prefix \<open>image/jpg\<close>) and the
  logo carries the lowercased header as it came, \<open>image/jpg\<close>, which is neither
  \<open>image/jpeg\<close> nor \<open>image/png\<close>; the page \<open>jpg_page\<close> with that image gives a
  success whose logo has this content type.
\<close>

theorem C9_contentType_image_jpg:
  "map_option logo_contentType
     (lc_logo (fst (downloadAndValidateImage (demo_world [] demo_images) []
                      ''https://acme.test/photo.jpg'')))
     = Some ''image/jpg''
   \<and> (case fst (fetchCompanyLogo (demo_world jpg_page demo_net) [] ''https://acme.test/'') of
        Inl e \<Rightarrow> None
      | Inr r \<Rightarrow> if success r then map_option logo_contentType (logo r) else None)
     = Some ''image/jpg''
   \<and> ''image/jpg'' \<notin> {''image/jpeg'', ''image/png''}"
proof -
  have "map_option logo_contentType
     (lc_logo (fst (downloadAndValidateImage (demo_world [] demo_images) []
                      ''https://acme.test/photo.jpg'')))
     = Some ''image/jpg''"
    by (simp add: downloadAndValidateImage_def demo_eval Let_def string_eval MAX_LOGO_BYTES_def)
  moreover have "(case fst (fetchCompanyLogo (demo_world jpg_page demo_net) [] ''https://acme.test/'') of
        Inl e \<Rightarrow> None
      | Inr r \<Rightarrow> if success r then map_option logo_contentType (logo r) else None)
     = Some ''image/jpg''"
    by (simp add: jpg_page_def pipeline_eval anchor_eval string_eval)
  ultimately show ?thesis by simp
qed

end
